theory Spec2Isabelle
  imports Complex_Main "HOL-Library.Sublist"
begin

section \<open>Data model\<close>

text \<open>
  A workout record as \<^verbatim>\<open>Dashboard.tsx\<close> builds it from the data file:
  \<^verbatim>\<open>{ date, content }\<close>.
\<close>

record Wod =
  date :: string
  content :: string

text \<open>
  The props a \<^verbatim>\<open>WodCard\<close> element is created with in the list views:
  \<^verbatim>\<open><WodCard key={wod.date} wod={wod} searchTerm={searchTerm} />\<close>.
\<close>

datatype WodCard = WodCard (card_key: string) (card_wod: Wod) (card_searchTerm: string)

section \<open>Layout grid planner (\<^verbatim>\<open>WodList.tsx\<close>, lines 18-30 and 83-85)\<close>

text \<open>
  \<^verbatim>\<open>getColumnCount(width)\<close>: the breakpoint chain, tested from the widest tier down.
  The width is a JavaScript number; it is modelled as a real number. (A NaN width fails
  every comparison and so takes the last branch, like any width below 768.)
\<close>

definition getColumnCount :: "real \<Rightarrow> nat" where
  "getColumnCount width =
     (if width \<ge> 1280 then 5
      else if width \<ge> 1024 then 3
      else if width \<ge> 768 then 2
      else 1)"

text \<open>
  \<^verbatim>\<open>const rowCount = Math.ceil(wods.length / columnCount)\<close>: the quotient is taken in
  the reals and rounded up. The column count always comes from \<open>getColumnCount\<close>, so it
  is at least 1 and the division is never by zero.
\<close>

definition rowCount :: "nat \<Rightarrow> nat \<Rightarrow> nat" where
  "rowCount n columnCount = nat \<lceil>real n / real columnCount\<rceil>"

text \<open>
  \<^verbatim>\<open>Array.prototype.slice(start, end)\<close> for non-negative integer arguments: both bounds
  are clamped to the length, and the result is empty when the clamped start is not below
  the clamped end (the subtraction on \<open>nat\<close> truncates at 0, as \<^verbatim>\<open>max(final - k, 0)\<close>
  does).
\<close>

definition slice :: "'a list \<Rightarrow> nat \<Rightarrow> nat \<Rightarrow> 'a list" where
  "slice xs start end =
     (let k = min start (length xs); final = min end (length xs)
      in take (final - k) (drop k xs))"

text \<open>
  The items of row \<open>index\<close>:
  \<^verbatim>\<open>const startIndex = virtualRow.index * columnCount;
  const rowWods = wods.slice(startIndex, startIndex + columnCount);\<close>
\<close>

definition rowWods :: "'a list \<Rightarrow> nat \<Rightarrow> nat \<Rightarrow> 'a list" where
  "rowWods wods columnCount index =
     (let startIndex = index * columnCount
      in slice wods startIndex (startIndex + columnCount))"

text \<open>All rows of the partition, in index order 0 .. rowCount - 1.\<close>

definition allRows :: "'a list \<Rightarrow> nat \<Rightarrow> 'a list list" where
  "allRows wods columnCount =
     map (rowWods wods columnCount) [0..<rowCount (length wods) columnCount]"

section \<open>The two list views' card sequences\<close>

text \<open>
  The non-virtualized grid variant of the list view: the empty-state element for an empty
  list, otherwise one card per record, in order
  (\<^verbatim>\<open>wods.map((wod) => <WodCard key={wod.date} wod={wod} searchTerm={searchTerm} />)\<close>).
\<close>

datatype PlainView = PlainNoResults | PlainGrid "WodCard list"

definition WodList_plain :: "Wod list \<Rightarrow> string \<Rightarrow> PlainView" where
  "WodList_plain wods searchTerm =
     (if length wods = 0 then PlainNoResults
      else PlainGrid (map (\<lambda>wod. WodCard (date wod) wod searchTerm) wods))"

text \<open>
  The cards of one row of the virtualized views:
  \<^verbatim>\<open>rowWods.map((wod) => <WodCard key={wod.date} wod={wod} searchTerm={searchTerm} />)\<close>.
\<close>

definition rowCards :: "Wod list \<Rightarrow> string \<Rightarrow> nat \<Rightarrow> nat \<Rightarrow> WodCard list" where
  "rowCards wods searchTerm columnCount index =
     map (\<lambda>wod. WodCard (date wod) wod searchTerm) (rowWods wods columnCount index)"

section \<open>Size cache and virtualization engine\<close>

text \<open>
  The options the list view passes to the virtualizer (\<^verbatim>\<open>WodList.tsx\<close>, lines 32-40):
  \<^verbatim>\<open>estimateSize: () => 300\<close>, \<^verbatim>\<open>overscan: 3\<close> and
  \<^verbatim>\<open>measureElement: (element) => element.getBoundingClientRect().height + 16\<close>.
  Heights are JavaScript numbers; they are modelled as exact real numbers.
\<close>

definition estimateSize :: real where
  "estimateSize = 300"

definition overscan :: nat where
  "overscan = 3"

definition measureElement :: "real \<Rightarrow> real" where
  "measureElement rectHeight = rectHeight + 16"

text \<open>
  Modelled from the spec: the size cache of the virtualization library, which the list
  view calls and the sources do not contain. It maps a row index to its measured height;
  \<open>get\<close> returns the estimate for a row with no measured entry, \<open>set\<close> records a
  measured height, \<open>invalidateAll\<close> clears every entry.
\<close>

type_synonym SizeCache = "nat \<rightharpoonup> real"

definition cache_get :: "SizeCache \<Rightarrow> nat \<Rightarrow> real" where
  "cache_get cache rowIndex =
     (case cache rowIndex of Some height \<Rightarrow> height | None \<Rightarrow> estimateSize)"

definition cache_set :: "SizeCache \<Rightarrow> nat \<Rightarrow> real \<Rightarrow> SizeCache" where
  "cache_set cache rowIndex height = cache(rowIndex \<mapsto> height)"

definition invalidateAll :: SizeCache where
  "invalidateAll = Map.empty"

text \<open>
  Modelled from the spec: the virtualization engine of the library (absent from the
  sources). The cumulative offset of a row is the running sum of the cached heights of
  the rows before it; the total height is the cumulative offset after the last row.
\<close>

fun offset :: "SizeCache \<Rightarrow> nat \<Rightarrow> real" where
  "offset cache 0 = 0"
| "offset cache (Suc i) = offset cache i + cache_get cache i"

definition totalHeight :: "SizeCache \<Rightarrow> nat \<Rightarrow> real" where
  "totalHeight cache rowCnt = offset cache rowCnt"

text \<open>The smallest row index below \<open>rowCnt\<close> that satisfies a test, if there is one.\<close>

definition smallestIndex :: "nat \<Rightarrow> (nat \<Rightarrow> bool) \<Rightarrow> nat option" where
  "smallestIndex rowCnt P = List.find P [0..<rowCnt]"

text \<open>
  Modelled from the spec: the window bounds of the engine. The start is the smallest row
  whose bottom edge lies below the scroll offset, minus the overscan, clamped to 0 (the
  subtraction on \<open>nat\<close> stops at 0). The end is the smallest row whose top edge is at or
  below the bottom of the viewport, plus the overscan, clamped to the last row. Where no
  row passes the test (the offset lies at or beyond the end of the content), the search
  falls back to the last row, as the spec's edge case "window clamped to the last rows"
  says. With no rows the window is empty.
\<close>

definition startRowIndex :: "SizeCache \<Rightarrow> nat \<Rightarrow> real \<Rightarrow> nat" where
  "startRowIndex cache rowCnt scrollOffset =
     (case smallestIndex rowCnt (\<lambda>i. offset cache i + cache_get cache i > scrollOffset) of
        Some i \<Rightarrow> i - overscan
      | None \<Rightarrow> (rowCnt - 1) - overscan)"

definition endRowIndex :: "SizeCache \<Rightarrow> nat \<Rightarrow> real \<Rightarrow> real \<Rightarrow> nat" where
  "endRowIndex cache rowCnt scrollOffset viewportHeight =
     (case smallestIndex rowCnt (\<lambda>i. offset cache i \<ge> scrollOffset + viewportHeight) of
        Some i \<Rightarrow> min (i + overscan) (rowCnt - 1)
      | None \<Rightarrow> rowCnt - 1)"

definition visibleRows :: "SizeCache \<Rightarrow> nat \<Rightarrow> real \<Rightarrow> real \<Rightarrow> nat list" where
  "visibleRows cache rowCnt scrollOffset viewportHeight =
     (if rowCnt = 0 then []
      else [startRowIndex cache rowCnt scrollOffset
              ..<Suc (endRowIndex cache rowCnt scrollOffset viewportHeight)])"

section \<open>The virtualized list view (\<^verbatim>\<open>WodList.tsx\<close>)\<close>

text \<open>
  What one render of the component returns: the empty-state element when there are no
  records (lines 47-69); otherwise the scroll container, whose inner element has the
  height \<^verbatim>\<open>virtualizer.getTotalSize()\<close> and holds one positioned row per virtual item,
  each with its index, its vertical start offset and its cards (lines 71-115). The scroll
  offset and the viewport height are read by the virtualizer from the scroll element;
  they are parameters here.
\<close>

datatype Row = Row (row_index: nat) (row_start: real) (row_cards: "WodCard list")

datatype View = NoResults | VirtualList (view_totalSize: real) (view_rows: "Row list")

definition WodList ::
  "Wod list \<Rightarrow> string \<Rightarrow> real \<Rightarrow> SizeCache \<Rightarrow> real \<Rightarrow> real \<Rightarrow> View" where
  "WodList wods searchTerm width cache scrollOffset viewportHeight =
     (let columnCount = getColumnCount width;
          rowCnt = rowCount (length wods) columnCount
      in if length wods = 0 then NoResults
         else VirtualList (totalHeight cache rowCnt)
                (map (\<lambda>index. Row index (offset cache index)
                                 (rowCards wods searchTerm columnCount index))
                     (visibleRows cache rowCnt scrollOffset viewportHeight)))"

text \<open>
  The state that outlives a render: the size cache, and the column count the effect of
  lines 42-45 saw when it last ran (nothing before the first render).
\<close>

record VirtualizerState =
  sizeCache :: SizeCache
  effectColumnCount :: "nat option"

text \<open>
  Modelled from the spec: \<^verbatim>\<open>virtualizer.measure()\<close> of the library (absent from the
  sources), the invalidation path: it clears the whole size cache.
\<close>

definition virtualizer_measure :: "VirtualizerState \<Rightarrow> VirtualizerState" where
  "virtualizer_measure st = st\<lparr>sizeCache := invalidateAll\<rparr>"

text \<open>
  \<^verbatim>\<open>useEffect(() => { virtualizer.measure(); }, [columnCount, virtualizer])\<close>: the effect
  runs after the first render and after every render whose column count differs from the
  one the effect last saw (the virtualizer object itself never changes).
\<close>

definition columnCountEffect :: "real \<Rightarrow> VirtualizerState \<Rightarrow> VirtualizerState" where
  "columnCountEffect width st =
     (let columnCount = getColumnCount width
      in if effectColumnCount st = Some columnCount then st
         else virtualizer_measure (st\<lparr>effectColumnCount := Some columnCount\<rparr>))"

text \<open>
  One render pass: the component body runs first and computes its output from the cache
  as it stands; the effect runs after the render has been committed.
\<close>

definition renderPass ::
  "Wod list \<Rightarrow> string \<Rightarrow> real \<Rightarrow> real \<Rightarrow> real \<Rightarrow> VirtualizerState
    \<Rightarrow> View \<times> VirtualizerState" where
  "renderPass wods searchTerm width scrollOffset viewportHeight st =
     (WodList wods searchTerm width (sizeCache st) scrollOffset viewportHeight,
      columnCountEffect width st)"

text \<open>
  Modelled from the spec: the store step of the measurement feedback loop, the library
  code behind \<^verbatim>\<open>ref={virtualizer.measureElement}\<close> that the sources do not contain.
  The observed height of a row is what the \<^verbatim>\<open>measureElement\<close> option of the source
  returns for the height of the row element's bounding rectangle (the rendered extent
  including the gap between rows). An event for a row index that does not exist under
  the current row count is discarded. An observed height of zero or below is a
  measurement glitch and is discarded as well: the cache keeps what it had. Any other
  observed height is stored for the row.
\<close>

definition onMeasure ::
  "nat \<Rightarrow> nat \<Rightarrow> real \<Rightarrow> VirtualizerState \<Rightarrow> VirtualizerState" where
  "onMeasure rowCnt index rectHeight st =
     (let observedHeight = measureElement rectHeight
      in if index \<ge> rowCnt then st
         else if observedHeight \<le> 0 then st
         else st\<lparr>sizeCache := cache_set (sizeCache st) index observedHeight\<rparr>)"

text \<open>A sequence of measurement events, applied in order.\<close>

fun measureAll ::
  "nat \<Rightarrow> (nat \<times> real) list \<Rightarrow> VirtualizerState \<Rightarrow> VirtualizerState" where
  "measureAll rowCnt [] st = st"
| "measureAll rowCnt ((index, rectHeight) # events) st =
     measureAll rowCnt events (onMeasure rowCnt index rectHeight st)"

section \<open>Search filter (\<^verbatim>\<open>Dashboard.tsx\<close>, lines 19-28)\<close>

text \<open>
  Strings are lists of 8-bit characters here, so the string functions are those of
  JavaScript restricted to the code units 0 to 255. White space in that range: TAB, LF,
  VT, FF, CR, space and the no-break space.
\<close>

definition isWhiteSpace :: "char \<Rightarrow> bool" where
  "isWhiteSpace c = ((of_char c :: nat) \<in> {9, 10, 11, 12, 13, 32, 160})"

definition trim :: "string \<Rightarrow> string" where
  "trim s = rev (dropWhile isWhiteSpace (rev (dropWhile isWhiteSpace s)))"

text \<open>
  Lower-casing in the same range: the letters A-Z and the accented capitals 192-222
  (without the multiplication sign 215) move up by 32; every other character stays.
\<close>

definition toLowerChar :: "char \<Rightarrow> char" where
  "toLowerChar c =
     (let n = (of_char c :: nat)
      in if (65 \<le> n \<and> n \<le> 90) \<or> (192 \<le> n \<and> n \<le> 222 \<and> n \<noteq> 215)
         then char_of (n + 32) else c)"

definition toLowerCase :: "string \<Rightarrow> string" where
  "toLowerCase s = map toLowerChar s"

text \<open>\<^verbatim>\<open>s.includes(t)\<close>: \<open>t\<close> occurs in \<open>s\<close> at some position, scanned from the left.\<close>

fun includes_str :: "string \<Rightarrow> string \<Rightarrow> bool" where
  "includes_str [] t = (t = [])"
| "includes_str (c # s) t = (prefix t (c # s) \<or> includes_str s t)"

definition filteredWods :: "string \<Rightarrow> Wod list \<Rightarrow> Wod list" where
  "filteredWods debouncedSearchTerm wods =
     (if trim debouncedSearchTerm = [] then wods
      else let searchLower = toLowerCase debouncedSearchTerm
           in filter (\<lambda>wod. includes_str (toLowerCase (content wod)) searchLower) wods)"

section \<open>Properties of the layout grid planner\<close>

lemma getColumnCount_cases:
  "getColumnCount w = 5 \<or> getColumnCount w = 3 \<or> getColumnCount w = 2 \<or> getColumnCount w = 1"
  by (simp add: getColumnCount_def)

lemma getColumnCount_pos: "1 \<le> getColumnCount w"
  by (simp add: getColumnCount_def)

text \<open>
  Claim C5. For every width, getColumnCount returns the value of the breakpoint table:
  5 from 1280 up, else 3 from 1024 up, else 2 from 768 up, else 1; in particular
  1400 gives 5 and 900 gives 2, and the result is always at least 1.
\<close>

theorem getColumnCount_table:
  "getColumnCount w =
     (if w \<ge> 1280 then 5 else if w \<ge> 1024 then 3 else if w \<ge> 768 then 2 else 1)
   \<and> getColumnCount 1400 = 5
   \<and> getColumnCount 900 = 2
   \<and> getColumnCount w \<ge> 1"
  by (simp add: getColumnCount_def)

text \<open>
  Claim C6. getColumnCount is monotonic non-decreasing in the width.
\<close>

theorem getColumnCount_mono:
  "w1 \<le> w2 \<Longrightarrow> getColumnCount w1 \<le> getColumnCount w2"
  by (simp add: getColumnCount_def)

theorem getColumnCount_mono_witness:
  "(900::real) \<le> 1400 \<and> getColumnCount 900 \<le> getColumnCount 1400"
  using getColumnCount_mono [of 900 1400] by simp

section \<open>Properties of the row partition\<close>

lemma rowCount_bounds:
  assumes "0 < c"
  shows "n \<le> rowCount n c * c" and "rowCount n c * c < n + c"
proof -
  let ?x = "real n / real c"
  have x0: "0 \<le> ?x" by simp
  then have r: "real (rowCount n c) = of_int \<lceil>?x\<rceil>"
    by (simp add: rowCount_def)
  have "?x \<le> real (rowCount n c)"
    unfolding r by (rule le_of_int_ceiling)
  then have "real n \<le> real (rowCount n c) * real c"
    using assms by (simp add: pos_divide_le_eq)
  then have "real n \<le> real (rowCount n c * c)" by simp
  then show "n \<le> rowCount n c * c" by (simp only: of_nat_le_iff)
  have "real (rowCount n c) - 1 < ?x"
    unfolding r using ceiling_correct [of ?x] by simp
  then have "real (rowCount n c) < (real n + real c) / real c"
    using assms by (simp add: add_divide_distrib)
  then have "real (rowCount n c) * real c < real n + real c"
    using assms by (simp add: pos_less_divide_eq)
  then have "real (rowCount n c * c) < real (n + c)" by simp
  then show "rowCount n c * c < n + c" by (simp only: of_nat_less_iff)
qed

lemma rowWods_take_drop: "rowWods xs c i = take c (drop (i * c) xs)"
  by (cases "i * c \<le> length xs") (auto simp: rowWods_def slice_def Let_def min_def)

lemma take_drop_nth:
  "take c (drop k xs) = map (\<lambda>j. xs ! j) [k..<min (k + c) (length xs)]"
proof (rule nth_equalityI)
  show "length (take c (drop k xs)) = length (map (\<lambda>j. xs ! j) [k..<min (k + c) (length xs)])"
    by (auto simp: min_def)
next
  fix i assume "i < length (take c (drop k xs))"
  then have i: "i < c" "k + i < length xs" by auto
  then have "i < length [k..<min (k + c) (length xs)]" by auto
  then have "map (\<lambda>j. xs ! j) [k..<min (k + c) (length xs)] ! i = xs ! (k + i)"
    by (simp only: nth_map nth_upt length_upt less_diff_conv add.commute)
  moreover have "take c (drop k xs) ! i = xs ! (k + i)" using i by simp
  ultimately show "take c (drop k xs) ! i = map (\<lambda>j. xs ! j) [k..<min (k + c) (length xs)] ! i"
    by simp
qed

lemma rowWods_nth:
  "rowWods xs c i = map (\<lambda>j. xs ! j) [i * c..<min ((i + 1) * c) (length xs)]"
  by (simp add: rowWods_take_drop take_drop_nth add.commute)

lemma length_rowWods: "length (rowWods xs c i) = min c (length xs - i * c)"
  by (simp add: rowWods_take_drop)

lemma concat_rows_take:
  "concat (map (\<lambda>i. take c (drop (i * c) xs)) [0..<r]) = take (r * c) xs"
proof (induction r)
  case 0 show ?case by simp
next
  case (Suc r)
  have "take (r * c) xs @ take c (drop (r * c) xs) = take (r * c + c) xs"
    by (simp add: take_add)
  with Suc show ?case by (simp add: add.commute)
qed

lemma concat_allRows:
  assumes "0 < c" shows "concat (allRows xs c) = xs"
proof -
  have "concat (allRows xs c) = take (rowCount (length xs) c * c) xs"
    unfolding allRows_def by (simp add: rowWods_take_drop [abs_def] concat_rows_take)
  also have "\<dots> = xs" using rowCount_bounds(1) [OF assms, of "length xs"] by simp
  finally show ?thesis .
qed

lemma full_row:
  assumes "0 < c" and "Suc i < rowCount (length xs) c"
  shows "length (rowWods xs c i) = c"
proof -
  have "Suc (Suc i) * c \<le> rowCount (length xs) c * c"
    using assms(2) by (intro mult_le_mono1) simp
  also have "\<dots> < length xs + c" by (rule rowCount_bounds(2) [OF assms(1)])
  finally have "Suc i * c < length xs" by simp
  then show ?thesis by (simp add: length_rowWods)
qed

lemma nonempty_row:
  assumes "0 < c" and "i < rowCount (length xs) c"
  shows "1 \<le> length (rowWods xs c i)" and "length (rowWods xs c i) \<le> c"
proof -
  have "Suc i * c \<le> rowCount (length xs) c * c"
    using assms(2) by (intro mult_le_mono1) simp
  also have "\<dots> < length xs + c" by (rule rowCount_bounds(2) [OF assms(1)])
  finally have "i * c < length xs" by simp
  then show "1 \<le> length (rowWods xs c i)" using assms(1) by (simp add: length_rowWods)
  show "length (rowWods xs c i) \<le> c" by (simp add: length_rowWods)
qed

text \<open>
  Claim C1. For every column count c of at least 1 and every item sequence of length N,
  the row partition of the list view has ceil(N/c) rows (the row count r satisfies
  N <= r*c < N + c), row i is the slice of the items from i*c up to min((i+1)*c, N),
  every row has between 1 and c items and every row but the last exactly c, and the
  rows concatenated in index order give back the item sequence.
\<close>

theorem partition_rows:
  assumes "1 \<le> c"
  shows "length (allRows xs c) = rowCount (length xs) c
    \<and> length xs \<le> rowCount (length xs) c * c
    \<and> rowCount (length xs) c * c < length xs + c
    \<and> (\<forall>i < rowCount (length xs) c.
          allRows xs c ! i = map (\<lambda>j. xs ! j) [i * c..<min ((i + 1) * c) (length xs)])
    \<and> (\<forall>i < rowCount (length xs) c.
          1 \<le> length (allRows xs c ! i) \<and> length (allRows xs c ! i) \<le> c)
    \<and> (\<forall>i. Suc i < rowCount (length xs) c \<longrightarrow> length (allRows xs c ! i) = c)
    \<and> concat (allRows xs c) = xs"
proof -
  have c: "0 < c" using assms by simp
  have nth: "allRows xs c ! i = rowWods xs c i" if "i < rowCount (length xs) c" for i
    using that by (simp add: allRows_def)
  have "length (allRows xs c) = rowCount (length xs) c" by (simp add: allRows_def)
  moreover note rowCount_bounds [OF c, of "length xs"]
  moreover have "\<forall>i < rowCount (length xs) c.
      allRows xs c ! i = map (\<lambda>j. xs ! j) [i * c..<min ((i + 1) * c) (length xs)]"
    using nth rowWods_nth by metis
  moreover have "\<forall>i < rowCount (length xs) c.
      1 \<le> length (allRows xs c ! i) \<and> length (allRows xs c ! i) \<le> c"
    using nth nonempty_row [OF c] by metis
  moreover have "\<forall>i. Suc i < rowCount (length xs) c \<longrightarrow> length (allRows xs c ! i) = c"
    using nth full_row [OF c] by (metis Suc_lessD)
  moreover note concat_allRows [OF c]
  ultimately show ?thesis by blast
qed

theorem partition_rows_witness:
  "(1::nat) \<le> 2
   \<and> rowCount (length [10, 20, 30 :: nat]) 2 = 2
   \<and> allRows [10, 20, 30 :: nat] 2 = [[10, 20], [30]]
   \<and> concat (allRows [10, 20, 30 :: nat] 2) = [10, 20, 30]"
  using partition_rows [of 2 "[10, 20, 30 :: nat]"]
  by (simp add: allRows_def rowCount_def rowWods_def slice_def upt_conv_Cons)

text \<open>Width 1400 gives 5 columns, and 23 items then fall into rows of 5, 5, 5, 5 and 3.\<close>

lemma scenario_A:
  "getColumnCount 1400 = 5 \<and> map length (allRows [1..<24] 5) = [5, 5, 5, 5, 3]" 
  by code_simp

text \<open>
  Claim C10. For every non-empty item list and the column count of the current width, the
  cards of the virtualized view's rows, concatenated over all row indices
  0 .. rowCount - 1, are exactly the cards the plain grid variant renders, in the same
  order.
\<close>

theorem virtualized_rows_eq_plain_grid:
  assumes "wods \<noteq> []"
  shows "WodList_plain wods searchTerm =
           PlainGrid (concat (map (rowCards wods searchTerm (getColumnCount width))
                        [0..<rowCount (length wods) (getColumnCount width)]))"
proof -
  let ?c = "getColumnCount width"
  have c: "0 < ?c" using getColumnCount_pos [of width] by simp
  have "concat (map (rowCards wods searchTerm ?c) [0..<rowCount (length wods) ?c])
        = map (\<lambda>wod. WodCard (date wod) wod searchTerm) (concat (allRows wods ?c))"
    by (simp add: rowCards_def [abs_def] allRows_def map_concat comp_def)
  also have "\<dots> = map (\<lambda>wod. WodCard (date wod) wod searchTerm) wods"
    by (simp only: concat_allRows [OF c])
  finally show ?thesis using assms by (simp add: WodList_plain_def)
qed

theorem virtualized_rows_eq_plain_grid_witness:
  "[\<lparr>date = ''2024-01-03'', content = ''Run''\<rparr>,
    \<lparr>date = ''2024-01-02'', content = ''Row''\<rparr>,
    \<lparr>date = ''2024-01-01'', content = ''Rest''\<rparr>] \<noteq> []
   \<and> WodList_plain
        [\<lparr>date = ''2024-01-03'', content = ''Run''\<rparr>,
         \<lparr>date = ''2024-01-02'', content = ''Row''\<rparr>,
         \<lparr>date = ''2024-01-01'', content = ''Rest''\<rparr>] ''r''
     = PlainGrid
        [WodCard ''2024-01-03'' \<lparr>date = ''2024-01-03'', content = ''Run''\<rparr> ''r'',
         WodCard ''2024-01-02'' \<lparr>date = ''2024-01-02'', content = ''Row''\<rparr> ''r'',
         WodCard ''2024-01-01'' \<lparr>date = ''2024-01-01'', content = ''Rest''\<rparr> ''r'']
   \<and> rowCards
        [\<lparr>date = ''2024-01-03'', content = ''Run''\<rparr>,
         \<lparr>date = ''2024-01-02'', content = ''Row''\<rparr>,
         \<lparr>date = ''2024-01-01'', content = ''Rest''\<rparr>] ''r'' (getColumnCount 900) 1
     = [WodCard ''2024-01-01'' \<lparr>date = ''2024-01-01'', content = ''Rest''\<rparr> ''r'']"
  using virtualized_rows_eq_plain_grid
    [of "[\<lparr>date = ''2024-01-03'', content = ''Run''\<rparr>,
          \<lparr>date = ''2024-01-02'', content = ''Row''\<rparr>,
          \<lparr>date = ''2024-01-01'', content = ''Rest''\<rparr>]" "''r''" 900]
  by (simp add: getColumnCount_def rowCount_def rowCards_def rowWods_def slice_def
        WodList_plain_def)

section \<open>Properties of the search filter\<close>

lemma isWhiteSpace_trim_Nil: "trim s = [] \<longleftrightarrow> (\<forall>c \<in> set s. isWhiteSpace c)"
proof
  assume "trim s = []"
  then have "dropWhile isWhiteSpace (rev (dropWhile isWhiteSpace s)) = []"
    by (simp add: trim_def)
  then have "\<forall>c \<in> set (dropWhile isWhiteSpace s). isWhiteSpace c"
    by (simp add: dropWhile_eq_Nil_conv)
  then have "dropWhile isWhiteSpace s = []"
    by (metis hd_dropWhile list.set_sel(1))
  then show "\<forall>c \<in> set s. isWhiteSpace c" by (simp add: dropWhile_eq_Nil_conv)
next
  assume "\<forall>c \<in> set s. isWhiteSpace c"
  then have "dropWhile isWhiteSpace s = []" by (simp add: dropWhile_eq_Nil_conv)
  then show "trim s = []" by (simp add: trim_def del: dropWhile_eq_Nil_conv)
qed

lemma includes_str_iff: "includes_str s t \<longleftrightarrow> (\<exists>pre suf. s = pre @ t @ suf)"
proof (induction s)
  case Nil
  show ?case by auto
next
  case (Cons c s)
  show ?case
  proof
    assume "includes_str (c # s) t"
    then consider "prefix t (c # s)" | "includes_str s t" by auto
    then show "\<exists>pre suf. c # s = pre @ t @ suf"
    proof cases
      case 1
      then obtain suf where "c # s = t @ suf" by (auto simp: prefix_def)
      then have "c # s = [] @ t @ suf" by simp
      then show ?thesis by blast
    next
      case 2
      then obtain pre suf where "s = pre @ t @ suf" using Cons.IH by blast
      then have "c # s = (c # pre) @ t @ suf" by simp
      then show ?thesis by blast
    qed
  next
    assume "\<exists>pre suf. c # s = pre @ t @ suf"
    then obtain pre suf where eq: "c # s = pre @ t @ suf" by blast
    show "includes_str (c # s) t"
    proof (cases pre)
      case Nil
      then have "prefix t (c # s)" using eq by (simp add: prefix_def)
      then show ?thesis by simp
    next
      case (Cons p pre')
      then have "s = pre' @ t @ suf" using eq by simp
      then have "includes_str s t" using Cons.IH by blast
      then show ?thesis by simp
    qed
  qed
qed

text \<open>
  Claim C9. If the debounced term is empty or consists of white space only, the filtered
  list is the record list unchanged; otherwise it is the records, in their order, whose
  lower-cased content contains the lower-cased term as a substring.
\<close>

theorem filteredWods_spec:
  "filteredWods term wods =
     (if \<forall>c \<in> set term. isWhiteSpace c then wods
      else filter (\<lambda>wod. \<exists>pre suf. toLowerCase (content wod) = pre @ toLowerCase term @ suf) wods)
   \<and> subseq (filteredWods term wods) wods"
  by (simp add: filteredWods_def isWhiteSpace_trim_Nil includes_str_iff Let_def)


theorem filteredWods_spec_witness:
  "filteredWods ''  '' [\<lparr>date = ''2024-01-03'', content = ''run''\<rparr>,
      \<lparr>date = ''2024-01-02'', content = ''21 thrusters''\<rparr>]
     = [\<lparr>date = ''2024-01-03'', content = ''run''\<rparr>,
        \<lparr>date = ''2024-01-02'', content = ''21 thrusters''\<rparr>]
   \<and> subseq (filteredWods ''thr'' [\<lparr>date = ''2024-01-03'', content = ''run''\<rparr>,
      \<lparr>date = ''2024-01-02'', content = ''21 thrusters''\<rparr>])
        [\<lparr>date = ''2024-01-03'', content = ''run''\<rparr>,
         \<lparr>date = ''2024-01-02'', content = ''21 thrusters''\<rparr>]"
  using filteredWods_spec [of "''  ''" "[\<lparr>date = ''2024-01-03'', content = ''run''\<rparr>,
      \<lparr>date = ''2024-01-02'', content = ''21 thrusters''\<rparr>]"]
    filteredWods_spec [of "''thr''" "[\<lparr>date = ''2024-01-03'', content = ''run''\<rparr>,
      \<lparr>date = ''2024-01-02'', content = ''21 thrusters''\<rparr>]"]
  by (simp add: isWhiteSpace_def)

text \<open>
  The match ignores case, and the term is not trimmed before the search: a term with a
  leading blank only matches content that has that blank.
\<close>

lemma filteredWods_example:
  "filteredWods ''THR'' [\<lparr>date = ''2024-01-03'', content = ''Run''\<rparr>,
      \<lparr>date = ''2024-01-02'', content = ''21 Thrusters''\<rparr>]
     = [\<lparr>date = ''2024-01-02'', content = ''21 Thrusters''\<rparr>]
   \<and> filteredWods '' thr'' [\<lparr>date = ''2024-01-03'', content = ''Run''\<rparr>,
      \<lparr>date = ''2024-01-02'', content = ''21 Thrusters''\<rparr>]
     = [\<lparr>date = ''2024-01-02'', content = ''21 Thrusters''\<rparr>]
   \<and> filteredWods '' thr'' [\<lparr>date = ''2024-01-02'', content = ''Thrusters''\<rparr>] = []"
  by code_simp

section \<open>Properties of the size cache and the virtualization engine\<close>

lemma cache_get_set:
  "cache_get (cache_set cache i h) j = (if j = i then h else cache_get cache j)"
  by (simp add: cache_get_def cache_set_def)

lemma cache_get_invalidateAll: "cache_get invalidateAll i = estimateSize"
  by (simp add: cache_get_def invalidateAll_def)

lemma offset_sum: "offset cache n = (\<Sum>i<n. cache_get cache i)"
  by (induction n) simp_all

lemma offset_cache_set:
  "offset (cache_set cache i h) n =
     (if i < n then offset cache n + (h - cache_get cache i) else offset cache n)"
  by (induction n) (auto simp: cache_get_set)

lemma offset_mono:
  assumes "\<forall>i<n. 0 \<le> cache_get cache i" and "a \<le> b" and "b \<le> n"
  shows "offset cache a \<le> offset cache b"
  using assms(2,3)
proof (induction b)
  case 0
  then show ?case by simp
next
  case (Suc b)
  show ?case
  proof (cases "a = Suc b")
    case True
    then show ?thesis by simp
  next
    case False
    then have "a \<le> b" using Suc.prems by simp
    moreover have "b \<le> n" "b < n" using Suc.prems by simp_all
    ultimately have "offset cache a \<le> offset cache b" using Suc.IH by simp
    moreover have "0 \<le> cache_get cache b" using assms(1) \<open>b < n\<close> by simp
    ultimately show ?thesis by simp
  qed
qed

lemma smallestIndex_Some:
  assumes "smallestIndex n P = Some i"
  shows "i < n" and "P i" and "\<forall>j<i. \<not> P j"
proof -
  from assms obtain k where k: "k < n" "P ([0..<n] ! k)" "i = [0..<n] ! k"
    "\<forall>j<k. \<not> P ([0..<n] ! j)"
    by (auto simp: smallestIndex_def find_Some_iff)
  then have ik: "i = k" by simp
  show "i < n" using k ik by simp
  show "P i" using k ik by simp
  show "\<forall>j<i. \<not> P j" using k ik by auto
qed

lemma smallestIndex_None:
  assumes "smallestIndex n P = None"
  shows "\<forall>j<n. \<not> P j"
  using assms by (auto simp: smallestIndex_def find_None_iff)

lemma smallestIndex_NoneI:
  assumes "\<forall>j<n. \<not> P j"
  shows "smallestIndex n P = None"
  using assms by (auto simp: smallestIndex_def find_None_iff)

lemma startRowIndex_covers:
  assumes n: "1 \<le> n" and nonneg: "\<forall>i<n. 0 \<le> cache_get cache i" and so: "0 \<le> so"
  shows "offset cache (startRowIndex cache n so) \<le> so"
proof (cases "smallestIndex n (\<lambda>i. offset cache i + cache_get cache i > so)")
  case None
  then have "\<not> offset cache (n - 1) + cache_get cache (n - 1) > so"
    using smallestIndex_None [OF None] n by simp
  then have "offset cache (Suc (n - 1)) \<le> so" by simp
  moreover have "offset cache ((n - 1) - overscan) \<le> offset cache (Suc (n - 1))"
    using offset_mono [OF nonneg, of "(n - 1) - overscan" "Suc (n - 1)"] n by simp
  ultimately show ?thesis by (simp add: startRowIndex_def None)
next
  case (Some i)
  note i = smallestIndex_Some [OF Some]
  have "offset cache i \<le> so"
  proof (cases i)
    case 0
    then show ?thesis using so by simp
  next
    case (Suc k)
    then have "\<not> offset cache k + cache_get cache k > so" using i(3) by simp
    then show ?thesis using Suc by simp
  qed
  moreover have "offset cache (i - overscan) \<le> offset cache i"
    using offset_mono [OF nonneg, of "i - overscan" i] i(1) by simp
  ultimately show ?thesis by (simp add: startRowIndex_def Some)
qed

lemma endRowIndex_less:
  assumes n: "1 \<le> n"
  shows "endRowIndex cache n so vh < n"
  using n by (auto simp: endRowIndex_def split: option.splits)

lemma endRowIndex_covers:
  assumes n: "1 \<le> n" and nonneg: "\<forall>i<n. 0 \<le> cache_get cache i"
  shows "min (so + vh) (totalHeight cache n)
           \<le> offset cache (endRowIndex cache n so vh)
              + cache_get cache (endRowIndex cache n so vh)"
proof (cases "smallestIndex n (\<lambda>i. offset cache i \<ge> so + vh)")
  case None
  then have "endRowIndex cache n so vh = n - 1" by (simp add: endRowIndex_def)
  moreover have "offset cache (Suc (n - 1)) = totalHeight cache n"
    using n by (simp add: totalHeight_def)
  ultimately show ?thesis by simp
next
  case (Some j)
  note j = smallestIndex_Some [OF Some]
  let ?e = "min (j + overscan) (n - 1)"
  have e: "endRowIndex cache n so vh = ?e" by (simp add: endRowIndex_def Some)
  have "j \<le> ?e" using j(1) by simp
  moreover have "Suc ?e \<le> n" using n by simp
  ultimately have "offset cache j \<le> offset cache (Suc ?e)"
    using offset_mono [OF nonneg, of j "Suc ?e"] by simp
  then have "so + vh \<le> offset cache ?e + cache_get cache ?e" using j(2) by simp
  then show ?thesis unfolding e by simp
qed

lemma startRowIndex_le_endRowIndex:
  assumes n: "1 \<le> n" and nonneg: "\<forall>i<n. 0 \<le> cache_get cache i" and vh: "0 < vh"
  shows "startRowIndex cache n so \<le> endRowIndex cache n so vh"
proof (cases "smallestIndex n (\<lambda>i. offset cache i \<ge> so + vh)")
  case None
  then have "endRowIndex cache n so vh = n - 1" by (simp add: endRowIndex_def)
  moreover have "startRowIndex cache n so \<le> n - 1"
    by (auto simp: startRowIndex_def split: option.splits dest: smallestIndex_Some(1))
  ultimately show ?thesis by simp
next
  case (Some j)
  note j = smallestIndex_Some [OF Some]
  have bottom: "so < offset cache j + cache_get cache j"
    using j(1,2) nonneg vh by (smt (verit))
  have e: "endRowIndex cache n so vh = min (j + overscan) (n - 1)"
    by (simp add: endRowIndex_def Some)
  show ?thesis
  proof (cases "smallestIndex n (\<lambda>i. offset cache i + cache_get cache i > so)")
    case None
    then show ?thesis using smallestIndex_None [OF None] j(1) bottom by simp
  next
    case (Some i)
    note i = smallestIndex_Some [OF Some]
    have "i \<le> j" using i(3) bottom by (meson not_le_imp_less)
    then have "i - overscan \<le> min (j + overscan) (n - 1)" using i(1) by arith
    then show ?thesis by (simp add: startRowIndex_def Some e)
  qed
qed

lemma window_beyond_total:
  assumes n: "1 \<le> n" and nonneg: "\<forall>i<n. 0 \<le> cache_get cache i" and vh: "0 < vh"
    and beyond: "totalHeight cache n < so"
  shows "startRowIndex cache n so = (n - 1) - overscan"
    and "endRowIndex cache n so vh = n - 1"
proof -
  have le: "offset cache k \<le> totalHeight cache n" if "k \<le> n" for k
    unfolding totalHeight_def using offset_mono [OF nonneg that] by simp
  have "\<not> offset cache i + cache_get cache i > so" if "i < n" for i
    using le [of "Suc i"] that beyond by simp
  then have "smallestIndex n (\<lambda>i. offset cache i + cache_get cache i > so) = None"
    by (intro smallestIndex_NoneI) simp
  then show "startRowIndex cache n so = (n - 1) - overscan"
    by (simp add: startRowIndex_def)
  have "\<not> offset cache i \<ge> so + vh" if "i < n" for i
    using le [of i] that beyond vh by simp
  then have "smallestIndex n (\<lambda>i. offset cache i \<ge> so + vh) = None"
    by (intro smallestIndex_NoneI) simp
  then show "endRowIndex cache n so vh = n - 1"
    by (simp add: endRowIndex_def)
qed

text \<open>
  Claim C3, as amended. For every row count of at least 1, every size cache whose heights
  are not negative, every positive viewport height and every scroll offset from 0 up to
  the total height, the window from startRowIndex to endRowIndex begins at or above the
  scroll offset and ends at or below the bottom of the viewport or the end of the
  content, whichever comes first; the window is never empty and stays within the rows;
  and a scroll offset beyond the total height gives the window of the last rows
  (the last row and the overscan rows before it).
\<close>

theorem window_covers_viewport:
  assumes "1 \<le> n" and "\<forall>i<n. 0 \<le> cache_get cache i" and "0 < vh" and "0 \<le> so"
  shows "(so \<le> totalHeight cache n \<longrightarrow>
            offset cache (startRowIndex cache n so) \<le> so
          \<and> min (so + vh) (totalHeight cache n)
              \<le> offset cache (endRowIndex cache n so vh)
                 + cache_get cache (endRowIndex cache n so vh))
       \<and> startRowIndex cache n so \<le> endRowIndex cache n so vh
       \<and> endRowIndex cache n so vh < n
       \<and> (totalHeight cache n < so \<longrightarrow>
            startRowIndex cache n so = (n - 1) - overscan
          \<and> endRowIndex cache n so vh = n - 1)"
  using startRowIndex_covers [OF assms(1,2,4)] endRowIndex_covers [OF assms(1,2)]
    startRowIndex_le_endRowIndex [OF assms(1,2,3)] endRowIndex_less [OF assms(1)]
    window_beyond_total [OF assms(1,2,3)]
  by blast


theorem window_covers_viewport_witness:
  "(1::nat) \<le> 2 \<and> 0 \<le> cache_get Map.empty 0 \<and> 0 \<le> cache_get Map.empty 1
   \<and> (0::real) < 200 \<and> (0::real) \<le> 100
   \<and> 100 \<le> totalHeight Map.empty 2
   \<and> offset Map.empty (startRowIndex Map.empty 2 100) \<le> 100
   \<and> min (100 + 200) (totalHeight Map.empty 2)
        \<le> offset Map.empty (endRowIndex Map.empty 2 100 200)
           + cache_get Map.empty (endRowIndex Map.empty 2 100 200)
   \<and> totalHeight Map.empty 2 < 5000
   \<and> startRowIndex Map.empty 2 5000 = 0
   \<and> endRowIndex Map.empty 2 5000 200 = 1"
  using window_covers_viewport [of 2 Map.empty 200 100]
    window_covers_viewport [of 2 Map.empty 200 5000]
  by (simp add: cache_get_def estimateSize_def totalHeight_def overscan_def numeral_2_eq_2)

text \<open>
  Claim C3 as stated fails where the viewport reaches past the end of the content: with
  two unmeasured rows (total height 600), scroll offset 0 and viewport height 700, the
  window is rows 0 to 1 and ends at 600, below the viewport's bottom edge at 700. No
  window can reach further than the total height.
\<close>

theorem window_covers_viewport_counterexample:
  "(1::nat) \<le> 2 \<and> (0::real) < 700 \<and> (0::real) \<le> 0 \<and> 0 \<le> totalHeight Map.empty 2
   \<and> cache_get Map.empty 0 = 300 \<and> cache_get Map.empty 1 = 300
   \<and> endRowIndex Map.empty 2 0 700 = 1
   \<and> \<not> (0 + 700 \<le> offset Map.empty (endRowIndex Map.empty 2 0 700)
                  + cache_get Map.empty (endRowIndex Map.empty 2 0 700))"
  by (simp add: endRowIndex_def smallestIndex_def upt_conv_Cons cache_get_def
        estimateSize_def totalHeight_def numeral_2_eq_2)


section \<open>Total height\<close>

text \<open>
  Claim C4. The total height is the exact sum, over the row indices 0 .. rowCount - 1, of
  the cached height of each row (the measured height where there is one, else the
  estimate), and the rendered view's total is that sum; storing one measurement for a
  row below the row count changes the total by exactly the difference to the row's
  previous height (by 40 for row 7 measured at 340 after the estimate 300); storing the
  same measurement again changes nothing; and a render pass at an unchanged column count
  leaves the cache as it is, so the next render computes the same output.
\<close>

theorem totalHeight_exact_sum:
  "totalHeight cache n = (\<Sum>i<n. cache_get cache i)
   \<and> (wods \<noteq> [] \<longrightarrow>
        view_totalSize (WodList wods searchTerm width cache so vh)
          = (\<Sum>i<rowCount (length wods) (getColumnCount width). cache_get cache i))
   \<and> (i < n \<longrightarrow>
        totalHeight (cache_set cache i h) n = totalHeight cache n + (h - cache_get cache i))
   \<and> (7 < n \<and> cache 7 = None \<longrightarrow>
        totalHeight (cache_set cache 7 340) n = totalHeight cache n + 40)
   \<and> totalHeight (cache_set (cache_set cache i h) i h) n = totalHeight (cache_set cache i h) n
   \<and> (effectColumnCount st = Some (getColumnCount width) \<longrightarrow>
        fst (renderPass wods searchTerm width so' vh'
               (snd (renderPass wods searchTerm width so vh st)))
          = fst (renderPass wods searchTerm width so' vh' st))"
proof -
  have "totalHeight cache n = (\<Sum>i<n. cache_get cache i)"
    by (simp add: totalHeight_def offset_sum)
  moreover have "wods \<noteq> [] \<longrightarrow>
        view_totalSize (WodList wods searchTerm width cache so vh)
          = (\<Sum>i<rowCount (length wods) (getColumnCount width). cache_get cache i)"
    by (simp add: WodList_def Let_def totalHeight_def offset_sum)
  moreover have "i < n \<longrightarrow>
        totalHeight (cache_set cache i h) n = totalHeight cache n + (h - cache_get cache i)"
    by (simp add: totalHeight_def offset_cache_set)
  moreover have "7 < n \<and> cache 7 = None \<longrightarrow>
        totalHeight (cache_set cache 7 340) n = totalHeight cache n + 40"
    by (simp add: totalHeight_def offset_cache_set cache_get_def estimateSize_def)
  moreover have "totalHeight (cache_set (cache_set cache i h) i h) n
        = totalHeight (cache_set cache i h) n"
    by (simp add: cache_set_def)
  moreover have "effectColumnCount st = Some (getColumnCount width) \<longrightarrow>
        fst (renderPass wods searchTerm width so' vh'
               (snd (renderPass wods searchTerm width so vh st)))
          = fst (renderPass wods searchTerm width so' vh' st)"
    by (simp add: renderPass_def columnCountEffect_def)
  ultimately show ?thesis by blast
qed

theorem totalHeight_exact_sum_witness:
  "(7::nat) < 10 \<and> (Map.empty :: SizeCache) 7 = None
   \<and> totalHeight Map.empty 10 = 3000
   \<and> totalHeight (cache_set Map.empty 7 340) 10 = 3040
   \<and> totalHeight (cache_set (cache_set Map.empty 7 340) 7 340) 10 = 3040"
  using totalHeight_exact_sum [of Map.empty 10 "[]" "[]" 0 0 0 7 340
      "\<lparr>sizeCache = Map.empty, effectColumnCount = None\<rparr>" 0 0]
  by (simp add: cache_get_def estimateSize_def)

section \<open>Empty collection\<close>

text \<open>
  Claim C8. For a list of zero items, at any width, either list view returns its
  empty-state element and renders no row; the row count is 0, the window of visible rows
  is empty and the total height is 0. The result is an ordinary value of the view type:
  nothing fails.
\<close>

theorem empty_collection:
  "WodList [] searchTerm width cache so vh = NoResults
   \<and> WodList_plain [] searchTerm = PlainNoResults
   \<and> rowCount (length ([] :: Wod list)) (getColumnCount width) = 0
   \<and> visibleRows cache (rowCount (length ([] :: Wod list)) (getColumnCount width)) so vh = []
   \<and> totalHeight cache (rowCount (length ([] :: Wod list)) (getColumnCount width)) = 0
   \<and> allRows ([] :: Wod list) (getColumnCount width) = []"
  by (simp add: WodList_def WodList_plain_def rowCount_def visibleRows_def totalHeight_def
        allRows_def)


section \<open>Measurement feedback\<close>

lemma sizeCache_onMeasure:
  "sizeCache (onMeasure n i r st) j =
     (if j = i \<and> i < n \<and> 0 < measureElement r then Some (measureElement r)
      else sizeCache st j)"
  by (simp add: onMeasure_def cache_set_def Let_def)

lemma cache_get_onMeasure:
  "cache_get (sizeCache (onMeasure n i r st)) j =
     (if j = i \<and> i < n \<and> 0 < measureElement r then measureElement r
      else cache_get (sizeCache st) j)"
  by (simp add: cache_get_def sizeCache_onMeasure)





section \<open>Invalidation on a column-count change\<close>

lemma cache_get_measureAll:
  "cache_get (sizeCache (measureAll rowCnt events st)) i = cache_get (sizeCache st) i
   \<or> (\<exists>r. (i, r) \<in> set events
          \<and> cache_get (sizeCache (measureAll rowCnt events st)) i = measureElement r)"
proof (induction events arbitrary: st)
  case Nil
  show ?case by simp
next
  case (Cons e events)
  obtain j r where e: "e = (j, r)" by (cases e)
  from Cons.IH [of "onMeasure rowCnt j r st"]
  show ?case unfolding e by (auto simp: cache_get_onMeasure split: if_splits)
qed

lemma cache_get_measureAll_other:
  "i \<notin> fst ` set events \<Longrightarrow>
     cache_get (sizeCache (measureAll rowCnt events st)) i = cache_get (sizeCache st) i"
proof (induction events arbitrary: st)
  case Nil
  show ?case by simp
next
  case (Cons e events)
  obtain j r where e: "e = (j, r)" by (cases e)
  from Cons show ?case unfolding e by (simp add: cache_get_onMeasure)
qed

lemma columnCountEffect_changed:
  assumes "effectColumnCount st = Some c0" and "getColumnCount width \<noteq> c0"
  shows "columnCountEffect width st =
           st\<lparr>effectColumnCount := Some (getColumnCount width), sizeCache := invalidateAll\<rparr>"
  using assms by (auto simp: columnCountEffect_def virtualizer_measure_def Let_def)

text \<open>
  Claim C2, as amended. When a render sees a column count different from the one the
  effect last saw, the effect that follows this render clears the whole size cache. From
  then on every row index reads back the estimate; after any sequence of measurement
  events a row reads either the estimate or a height measured by one of these later
  events, and a row that none of them measured still reads the estimate; and the next
  render computes its output from the cleared cache.
\<close>

theorem columnCount_change_invalidates:
  assumes "effectColumnCount st = Some c0" and "getColumnCount width \<noteq> c0"
  shows "sizeCache (snd (renderPass wods searchTerm width so vh st)) = invalidateAll
       \<and> (\<forall>i. cache_get (sizeCache (snd (renderPass wods searchTerm width so vh st))) i
               = estimateSize)
       \<and> (\<forall>events i.
             cache_get (sizeCache (measureAll rowCnt events
                 (snd (renderPass wods searchTerm width so vh st)))) i = estimateSize
           \<or> (\<exists>r. (i, r) \<in> set events
                 \<and> cache_get (sizeCache (measureAll rowCnt events
                       (snd (renderPass wods searchTerm width so vh st)))) i
                     = measureElement r))
       \<and> (\<forall>events i. i \<notin> fst ` set events \<longrightarrow>
             cache_get (sizeCache (measureAll rowCnt events
                 (snd (renderPass wods searchTerm width so vh st)))) i = estimateSize)
       \<and> fst (renderPass wods searchTerm width so' vh'
                (snd (renderPass wods searchTerm width so vh st)))
          = WodList wods searchTerm width invalidateAll so' vh'"
proof -
  let ?st' = "snd (renderPass wods searchTerm width so vh st)"
  have st': "?st' = st\<lparr>effectColumnCount := Some (getColumnCount width),
                         sizeCache := invalidateAll\<rparr>"
    by (simp add: renderPass_def columnCountEffect_changed [OF assms])
  have c: "sizeCache ?st' = invalidateAll" by (simp add: st')
  have est: "\<forall>i. cache_get (sizeCache ?st') i = estimateSize"
    by (simp add: c cache_get_invalidateAll)
  have ev: "\<forall>events i.
      cache_get (sizeCache (measureAll rowCnt events ?st')) i = estimateSize
    \<or> (\<exists>r. (i, r) \<in> set events
          \<and> cache_get (sizeCache (measureAll rowCnt events ?st')) i = measureElement r)"
    using cache_get_measureAll [of rowCnt _ ?st'] est by metis
  have other: "\<forall>events i. i \<notin> fst ` set events \<longrightarrow>
      cache_get (sizeCache (measureAll rowCnt events ?st')) i = estimateSize"
    using cache_get_measureAll_other [of _ _ rowCnt ?st'] est by metis
  have "fst (renderPass wods searchTerm width so' vh' ?st')
          = WodList wods searchTerm width invalidateAll so' vh'"
    using c by (simp add: renderPass_def)
  with c est ev other show ?thesis by blast
qed

theorem columnCount_change_invalidates_witness:
  "effectColumnCount \<lparr>sizeCache = Map.empty(0 \<mapsto> 340), effectColumnCount = Some 5\<rparr> = Some 5
   \<and> getColumnCount 600 \<noteq> 5
   \<and> cache_get (sizeCache (snd (renderPass
          [\<lparr>date = ''2024-01-03'', content = ''Run''\<rparr>,
           \<lparr>date = ''2024-01-02'', content = ''Row''\<rparr>,
           \<lparr>date = ''2024-01-01'', content = ''Rest''\<rparr>] [] 600 0 700
          \<lparr>sizeCache = Map.empty(0 \<mapsto> 340), effectColumnCount = Some 5\<rparr>))) 0 = 300"
proof -
  let ?st = "\<lparr>sizeCache = Map.empty(0 \<mapsto> 340), effectColumnCount = Some (5::nat)\<rparr>"
  have h1: "effectColumnCount ?st = Some 5" by simp
  have h2: "getColumnCount 600 \<noteq> 5" by (simp add: getColumnCount_def)
  show ?thesis
    using h1 h2 columnCount_change_invalidates [OF h1 h2, of
        "[\<lparr>date = ''2024-01-03'', content = ''Run''\<rparr>,
          \<lparr>date = ''2024-01-02'', content = ''Row''\<rparr>,
          \<lparr>date = ''2024-01-01'', content = ''Rest''\<rparr>]" "[]" 0 700 0 700]
    by (simp add: estimateSize_def cache_get_def invalidateAll_def)
qed

text \<open>
  Claim C2 as stated fails for the render that first sees the new column count: the
  component body runs before the effect, so its output is still computed from the old
  cache. Row 0 was measured at 340 under 5 columns; the render at width 600 (1 column,
  3 rows for 3 items) reports the total height 940, which contains that 340, where a
  cleared cache gives 900.
\<close>

theorem stale_height_in_render_counterexample:
  "effectColumnCount \<lparr>sizeCache = Map.empty(0 \<mapsto> 340), effectColumnCount = Some 5\<rparr> = Some 5
   \<and> getColumnCount 600 = 1
   \<and> view_totalSize (fst (renderPass
          [\<lparr>date = ''2024-01-03'', content = ''Run''\<rparr>,
           \<lparr>date = ''2024-01-02'', content = ''Row''\<rparr>,
           \<lparr>date = ''2024-01-01'', content = ''Rest''\<rparr>] [] 600 0 700
          \<lparr>sizeCache = Map.empty(0 \<mapsto> 340), effectColumnCount = Some 5\<rparr>)) = 940
   \<and> view_totalSize (WodList
          [\<lparr>date = ''2024-01-03'', content = ''Run''\<rparr>,
           \<lparr>date = ''2024-01-02'', content = ''Row''\<rparr>,
           \<lparr>date = ''2024-01-01'', content = ''Rest''\<rparr>] [] 600 invalidateAll 0 700) = 900"
  by (simp add: renderPass_def WodList_def getColumnCount_def rowCount_def totalHeight_def
        cache_get_def estimateSize_def invalidateAll_def numeral_3_eq_3)

end
